theory Spec2Isabelle
  imports Main
begin

section \<open>Values read from the storage file\<close>

text \<open>
  \<^verbatim>\<open>JSON.parse\<close> yields a tree of null, booleans, numbers, strings, arrays and objects.
  An object is kept as the list of its own properties, each key once (of a key written
  twice in the text \<^verbatim>\<open>JSON.parse\<close> keeps one value); a property read is \<open>map_of\<close>.
  Of a number the program observes only whether it is zero (truthiness), so an integer
  stands for the parsed double. A string is the list of its bytes in UTF-8: the program
  compares strings for equality and cuts them at the one-byte character \<open>/\<close>, and both
  agree on bytes and on UTF-16 code units.
\<close>

datatype json =
    JNull
  | JBool bool
  | JNum int
  | JStr string
  | JArr "json list"
  | JObj "(string \<times> json) list"

text \<open>A JavaScript value at run time is a parsed value or \<^verbatim>\<open>undefined\<close> (\<open>None\<close>).\<close>

type_synonym jsval = "json option"

datatype error = TypeError | ReadError | SyntaxError | Rejected

text \<open>
  Reading a data property of a value that is neither null nor undefined. The names the
  program reads this way are \<^verbatim>\<open>lastKnownMenubarData\<close>, \<^verbatim>\<open>menus\<close>, \<^verbatim>\<open>File\<close>, \<^verbatim>\<open>items\<close>,
  \<^verbatim>\<open>id\<close>, \<^verbatim>\<open>label\<close>, \<^verbatim>\<open>submenu\<close>, \<^verbatim>\<open>uri\<close> and \<^verbatim>\<open>path\<close>; none of them is a property of a
  prototype, so only an object can have one, as an own property.
\<close>

fun get_prop :: "json \<Rightarrow> string \<Rightarrow> jsval" where
  "get_prop (JObj kvs) k = map_of kvs k"
| "get_prop _ k = None"

text \<open>\<^verbatim>\<open>x.k\<close>: a TypeError on null and undefined.\<close>

fun dot :: "jsval \<Rightarrow> string \<Rightarrow> error + jsval" where
  "dot None k = Inl TypeError"
| "dot (Some JNull) k = Inl TypeError"
| "dot (Some v) k = Inr (get_prop v k)"

text \<open>\<^verbatim>\<open>x?.k\<close>: undefined on null and undefined.\<close>

fun qdot :: "jsval \<Rightarrow> string \<Rightarrow> jsval" where
  "qdot None k = None"
| "qdot (Some JNull) k = None"
| "qdot (Some v) k = get_prop v k"

fun truthy :: "jsval \<Rightarrow> bool" where
  "truthy None = False"
| "truthy (Some JNull) = False"
| "truthy (Some (JBool b)) = b"
| "truthy (Some (JNum n)) = (n \<noteq> 0)"
| "truthy (Some (JStr s)) = (s \<noteq> [])"
| "truthy (Some (JArr xs)) = True"
| "truthy (Some (JObj kvs)) = True"

fun typeof :: "jsval \<Rightarrow> string" where
  "typeof None = ''undefined''"
| "typeof (Some JNull) = ''object''"
| "typeof (Some (JBool b)) = ''boolean''"
| "typeof (Some (JNum n)) = ''number''"
| "typeof (Some (JStr s)) = ''string''"
| "typeof (Some (JArr xs)) = ''object''"
| "typeof (Some (JObj kvs)) = ''object''"

text \<open>\<^verbatim>\<open>v === "literal"\<close>: true only of a string with the same content.\<close>

definition strict_eq_str :: "jsval \<Rightarrow> string \<Rightarrow> bool" where
  "strict_eq_str v s = (v = Some (JStr s))"

section \<open>Array and string methods\<close>

text \<open>
  \<^verbatim>\<open>find\<close>, \<^verbatim>\<open>filter\<close> and \<^verbatim>\<open>map\<close> visit the elements in order; an exception thrown by
  the callback leaves the method at once.
\<close>

fun find_js :: "(json \<Rightarrow> error + bool) \<Rightarrow> json list \<Rightarrow> error + jsval" where
  "find_js p [] = Inr None"
| "find_js p (x # xs) =
     (case p x of
        Inl e \<Rightarrow> Inl e
      | Inr b \<Rightarrow> if b then Inr (Some x) else find_js p xs)"

fun filter_js :: "(json \<Rightarrow> error + bool) \<Rightarrow> json list \<Rightarrow> error + json list" where
  "filter_js p [] = Inr []"
| "filter_js p (x # xs) =
     (case p x of
        Inl e \<Rightarrow> Inl e
      | Inr b \<Rightarrow>
          (case filter_js p xs of
             Inl e \<Rightarrow> Inl e
           | Inr ys \<Rightarrow> Inr (if b then x # ys else ys)))"

fun map_js :: "(json \<Rightarrow> error + 'b) \<Rightarrow> json list \<Rightarrow> error + 'b list" where
  "map_js f [] = Inr []"
| "map_js f (x # xs) =
     (case f x of
        Inl e \<Rightarrow> Inl e
      | Inr y \<Rightarrow>
          (case map_js f xs of
             Inl e \<Rightarrow> Inl e
           | Inr ys \<Rightarrow> Inr (y # ys)))"

text \<open>
  Calling \<^verbatim>\<open>v.find(p)\<close> or \<^verbatim>\<open>v.filter(p)\<close> on a truthy parsed value: only an array has
  the method. On any other value the property is undefined, or (an own property of an
  object) parsed data and so not a function: the call is a TypeError.
\<close>

fun call_find :: "jsval \<Rightarrow> (json \<Rightarrow> error + bool) \<Rightarrow> error + jsval" where
  "call_find (Some (JArr xs)) p = find_js p xs"
| "call_find _ p = Inl TypeError"

fun call_filter :: "jsval \<Rightarrow> (json \<Rightarrow> error + bool) \<Rightarrow> error + json list" where
  "call_filter (Some (JArr xs)) p = filter_js p xs"
| "call_filter _ p = Inl TypeError"

text \<open>
  \<^verbatim>\<open>s.split(sep)\<close> with a separator of one character: the pieces between the
  separators, at least one piece.
\<close>

fun split_js :: "char \<Rightarrow> string \<Rightarrow> string list" where
  "split_js sep [] = [[]]"
| "split_js sep (c # cs) =
     (if c = sep then [] # split_js sep cs
      else (case split_js sep cs of
              [] \<Rightarrow> [[c]]
            | s # ss \<Rightarrow> (c # s) # ss))"

text \<open>Only a string has \<^verbatim>\<open>split\<close>; on every other value the call is a TypeError.\<close>

fun call_split :: "jsval \<Rightarrow> char \<Rightarrow> error + string list" where
  "call_split (Some (JStr s)) sep = Inr (split_js sep s)"
| "call_split _ sep = Inl TypeError"

text \<open>\<^verbatim>\<open>xs.pop()\<close>: the last element, undefined on the empty array.\<close>

fun pop :: "'a list \<Rightarrow> 'a option" where
  "pop [] = None"
| "pop xs = Some (last xs)"

text \<open>\<^verbatim>\<open>s || ''\<close> for \<open>s\<close> a string or undefined.\<close>

fun or_empty :: "string option \<Rightarrow> string" where
  "or_empty None = []"
| "or_empty (Some s) = (if s = [] then [] else s)"

section \<open>getRecentProjects\<close>

text \<open>
  The fields of a result are typed \<^verbatim>\<open>string\<close> in the source, but the types are erased:
  \<^verbatim>\<open>uri\<close> and \<^verbatim>\<open>path\<close> hold whatever \<^verbatim>\<open>uri.path\<close> was. \<^verbatim>\<open>label\<close> is always a string.
\<close>

record RecentProject =
  uri :: jsval
  label :: string
  path :: jsval

text \<open>
  What the file system and \<^verbatim>\<open>JSON.parse\<close> give: no file (\<^verbatim>\<open>existsSync\<close> is false), a
  file that \<^verbatim>\<open>readFileSync\<close> cannot read, a text that \<^verbatim>\<open>JSON.parse\<close> rejects, or a
  parsed value.
\<close>

datatype storage_file = Missing | Unreadable | Malformed | Parsed json

text \<open>The callback of \<^verbatim>\<open>fileMenu.find\<close>.\<close>

definition is_recent_menu :: "json \<Rightarrow> error + bool" where
  "is_recent_menu item =
     (case dot (Some item) ''id'' of
        Inl e \<Rightarrow> Inl e
      | Inr i \<Rightarrow>
          if strict_eq_str i ''submenuitem.MenubarRecentMenu''
          then (case dot (Some item) ''label'' of
                  Inl e \<Rightarrow> Inl e
                | Inr l \<Rightarrow> Inr (strict_eq_str l ''Open &&Recent''))
          else Inr False)"

text \<open>The callbacks of the two \<^verbatim>\<open>filter\<close> calls and of \<^verbatim>\<open>map\<close>.\<close>

definition is_open_recent_folder :: "json \<Rightarrow> error + bool" where
  "is_open_recent_folder item =
     (case dot (Some item) ''id'' of
        Inl e \<Rightarrow> Inl e
      | Inr i \<Rightarrow> Inr (strict_eq_str i ''openRecentFolder''))"

definition has_object_uri :: "json \<Rightarrow> error + bool" where
  "has_object_uri item =
     (case dot (Some item) ''uri'' of
        Inl e \<Rightarrow> Inl e
      | Inr u \<Rightarrow> Inr (truthy u \<and> typeof u = ''object''))"

definition to_project :: "json \<Rightarrow> error + RecentProject" where
  "to_project item =
     (case dot (Some item) ''uri'' of
        Inl e \<Rightarrow> Inl e
      | Inr u \<Rightarrow>
     (case dot u ''path'' of
        Inl e \<Rightarrow> Inl e
      | Inr filePath \<Rightarrow>
     (case dot (Some item) ''label'' of
        Inl e \<Rightarrow> Inl e
      | Inr l \<Rightarrow>
     (case call_split l (CHR ''/'') of
        Inl e \<Rightarrow> Inl e
      | Inr segs \<Rightarrow>
          Inr \<lparr>uri = filePath, label = or_empty (pop segs), path = filePath\<rparr>))))"

text \<open>
  The \<^verbatim>\<open>return\<close> of the chain \<^verbatim>\<open>.filter(..).filter(..).map(..)\<close> on the value of
  \<^verbatim>\<open>recentMenuItem.submenu.items\<close>.
\<close>

definition project_chain :: "jsval \<Rightarrow> error + RecentProject list" where
  "project_chain v =
     (case call_filter v is_open_recent_folder of
        Inl e \<Rightarrow> Inl e
      | Inr xs \<Rightarrow>
     (case filter_js has_object_uri xs of
        Inl e \<Rightarrow> Inl e
      | Inr ys \<Rightarrow> map_js to_project ys))"

text \<open>
  The navigation down to the recent menu. \<open>Inr None\<close> is one of the two early
  \<^verbatim>\<open>return []\<close>; \<open>Inr (Some item)\<close> is a \<^verbatim>\<open>recentMenuItem\<close> that passed the test
  \<^verbatim>\<open>!recentMenuItem || !recentMenuItem.submenu?.items\<close>.
\<close>

definition recent_menu_item :: "json \<Rightarrow> error + jsval" where
  "recent_menu_item storageData =
     (case dot (Some storageData) ''lastKnownMenubarData'' of
        Inl e \<Rightarrow> Inl e
      | Inr d \<Rightarrow>
          let fileMenu = qdot (qdot (qdot d ''menus'') ''File'') ''items'' in
          if \<not> truthy fileMenu then Inr None
          else
            (case call_find fileMenu is_recent_menu of
               Inl e \<Rightarrow> Inl e
             | Inr recentMenuItem \<Rightarrow>
                 if \<not> truthy recentMenuItem then Inr None
                 else
                   (case dot recentMenuItem ''submenu'' of
                      Inl e \<Rightarrow> Inl e
                    | Inr sub \<Rightarrow>
                        if \<not> truthy (qdot sub ''items'') then Inr None
                        else Inr recentMenuItem)))"

text \<open>
  The body of the \<^verbatim>\<open>try\<close> block, on what is found at \<^verbatim>\<open>STORAGE_FILE_PATH()\<close>. The
  calls of \<^verbatim>\<open>console.error\<close> and \<^verbatim>\<open>console.log\<close> change no result and are left out.
\<close>

definition getRecentProjects_try :: "storage_file \<Rightarrow> error + RecentProject list" where
  "getRecentProjects_try file =
     (case file of
        Missing \<Rightarrow> Inr []
      | Unreadable \<Rightarrow> Inl ReadError
      | Malformed \<Rightarrow> Inl SyntaxError
      | Parsed storageData \<Rightarrow>
          (case recent_menu_item storageData of
             Inl e \<Rightarrow> Inl e
           | Inr None \<Rightarrow> Inr []
           | Inr (Some recentMenuItem) \<Rightarrow>
               (case dot (Some recentMenuItem) ''submenu'' of
                  Inl e \<Rightarrow> Inl e
                | Inr sub \<Rightarrow>
                    (case dot sub ''items'' of
                       Inl e \<Rightarrow> Inl e
                     | Inr its \<Rightarrow> project_chain its))))"

text \<open>\<^verbatim>\<open>try { body } catch (error) { handler }\<close>.\<close>

definition try_catch :: "error + 'a \<Rightarrow> (error \<Rightarrow> error + 'a) \<Rightarrow> error + 'a" where
  "try_catch body handler = (case body of Inl e \<Rightarrow> handler e | Inr x \<Rightarrow> Inr x)"

definition getRecentProjects :: "storage_file \<Rightarrow> error + RecentProject list" where
  "getRecentProjects file = try_catch (getRecentProjects_try file) (\<lambda>e. Inr [])"

section \<open>openProjectInWindsurf\<close>

text \<open>
  The launcher awaits three collaborators: \<^verbatim>\<open>execAsync\<close>, \<^verbatim>\<open>showToast\<close> and
  \<^verbatim>\<open>closeMainWindow\<close>. An event is one such call; the environment says which calls
  resolve and which reject (\<^verbatim>\<open>execAsync\<close> rejects when the process cannot be started
  or exits non-zero). A toast is known by its style: the title and message are fixed
  texts. The run is the list of the calls made, in order, and how the promise of
  \<^verbatim>\<open>openProjectInWindsurf\<close> settles.
\<close>

datatype toast_style = Success | Failure

datatype event = Exec string | ShowToast toast_style | CloseMainWindow

record env =
  exec_ok :: "string \<Rightarrow> bool"
  toast_ok :: "toast_style \<Rightarrow> bool"
  close_ok :: bool

type_synonym run = "event list \<times> (error + unit)"

text \<open>The template literal \<^verbatim>\<open>`open -a Windsurf "${projectPath}"`\<close>.\<close>

definition launch_command :: "string \<Rightarrow> string" where
  \<open>launch_command projectPath = ''open -a Windsurf "'' @ projectPath @ ''"''\<close>

fun resolves :: "env \<Rightarrow> event \<Rightarrow> bool" where
  "resolves E (Exec c) = exec_ok E c"
| "resolves E (ShowToast t) = toast_ok E t"
| "resolves E CloseMainWindow = close_ok E"

text \<open>\<^verbatim>\<open>await call\<close> after the calls \<open>tr\<close>.\<close>

definition await :: "env \<Rightarrow> event \<Rightarrow> event list \<Rightarrow> run" where
  "await E ev tr = (tr @ [ev], if resolves E ev then Inr () else Inl Rejected)"

text \<open>The next statement of a block: skipped once an exception is on its way.\<close>

definition then_await :: "env \<Rightarrow> event \<Rightarrow> run \<Rightarrow> run" where
  "then_await E ev r = (case snd r of Inl e \<Rightarrow> r | Inr u \<Rightarrow> await E ev (fst r))"

definition openProjectInWindsurf_try :: "env \<Rightarrow> string \<Rightarrow> run" where
  "openProjectInWindsurf_try E projectPath =
     then_await E CloseMainWindow
       (then_await E (ShowToast Success)
          (await E (Exec (launch_command projectPath)) []))"

definition openProjectInWindsurf :: "env \<Rightarrow> string \<Rightarrow> run" where
  "openProjectInWindsurf E projectPath =
     (let r = openProjectInWindsurf_try E projectPath in
      case snd r of
        Inl e \<Rightarrow> await E (ShowToast Failure) (fst r)
      | Inr u \<Rightarrow> r)"

text \<open>The shell commands among the calls of a run.\<close>

fun executed :: "event list \<Rightarrow> string list" where
  "executed [] = []"
| "executed (Exec c # es) = c # executed es"
| "executed (e # es) = executed es"

section \<open>Command\<close>

text \<open>
  The component holds the list and the loading flag. It renders once with the initial
  state, the effect runs \<^verbatim>\<open>getRecentProjects\<close> and sets both, and it renders again.
  A row shows the label and the path and carries the path for its two actions.
\<close>

record state =
  recentProjects :: "RecentProject list"
  isLoading :: bool

record list_item =
  title :: string
  subtitle :: jsval
  open_action :: jsval
  copy_action :: jsval

datatype children = EmptyView | Items "list_item list"

record list_view =
  list_isLoading :: bool
  list_children :: children

definition initial_state :: state where
  "initial_state = \<lparr>recentProjects = [], isLoading = True\<rparr>"

definition render_item :: "RecentProject \<Rightarrow> list_item" where
  "render_item project =
     \<lparr>title = label project, subtitle = path project,
      open_action = path project, copy_action = path project\<rparr>"

definition render :: "state \<Rightarrow> list_view" where
  "render st =
     \<lparr>list_isLoading = isLoading st,
      list_children =
        (if length (recentProjects st) = 0 \<and> \<not> isLoading st then EmptyView
         else Items (map render_item (recentProjects st)))\<rparr>"

definition effect :: "storage_file \<Rightarrow> state \<Rightarrow> error + state" where
  "effect file st =
     (case getRecentProjects file of
        Inl e \<Rightarrow> Inl e
      | Inr projects \<Rightarrow> Inr (st\<lparr>recentProjects := projects, isLoading := False\<rparr>))"

text \<open>What the command shows once the effect has run.\<close>

definition Command :: "storage_file \<Rightarrow> error + list_view" where
  "Command file =
     (case effect file initial_state of
        Inl e \<Rightarrow> Inl e
      | Inr st \<Rightarrow> Inr (render st))"

section \<open>The extraction as the specification words it\<close>

text \<open>
  The navigation of the specification, every field present and of the expected shape:
  \<^verbatim>\<open>lastKnownMenubarData\<close>, \<^verbatim>\<open>menus\<close>, \<^verbatim>\<open>File\<close> and \<^verbatim>\<open>submenu\<close> objects, both
  \<^verbatim>\<open>items\<close> arrays.
\<close>

fun the_object :: "jsval \<Rightarrow> (string \<times> json) list option" where
  "the_object (Some (JObj kvs)) = Some kvs"
| "the_object _ = None"

fun the_array :: "jsval \<Rightarrow> json list option" where
  "the_array (Some (JArr xs)) = Some xs"
| "the_array _ = None"

definition shaped_file_items :: "json \<Rightarrow> json list option" where
  "shaped_file_items storageData =
     (case the_object (get_prop storageData ''lastKnownMenubarData'') of
        None \<Rightarrow> None
      | Some d \<Rightarrow>
     (case the_object (map_of d ''menus'') of
        None \<Rightarrow> None
      | Some m \<Rightarrow>
     (case the_object (map_of m ''File'') of
        None \<Rightarrow> None
      | Some f \<Rightarrow> the_array (map_of f ''items''))))"

definition shaped_submenu_items :: "json \<Rightarrow> json list option" where
  "shaped_submenu_items item =
     (case the_object (get_prop item ''submenu'') of
        None \<Rightarrow> None
      | Some sub \<Rightarrow> the_array (map_of sub ''items''))"

definition matches_recent :: "json \<Rightarrow> bool" where
  "matches_recent item \<longleftrightarrow>
     get_prop item ''id'' = Some (JStr ''submenuitem.MenubarRecentMenu'') \<and>
     get_prop item ''label'' = Some (JStr ''Open &&Recent'')"

text \<open>
  \<open>reaches storageData ys\<close>: the File menu holds a recent-menu entry, before it only
  entries that are not null, and \<open>ys\<close> is the \<^verbatim>\<open>submenu.items\<close> array of that entry.
\<close>

definition reaches :: "json \<Rightarrow> json list \<Rightarrow> bool" where
  "reaches storageData ys =
     (case shaped_file_items storageData of
        None \<Rightarrow> False
      | Some xs \<Rightarrow>
          JNull \<notin> set (takeWhile (\<lambda>x. \<not> matches_recent x) xs) \<and>
          (case List.find matches_recent xs of
             None \<Rightarrow> False
           | Some item \<Rightarrow> shaped_submenu_items item = Some ys))"

text \<open>
  The two filters: the id is the literal, the uri is present and an object (an array is
  an object too; null is not).
\<close>

fun is_object :: "jsval \<Rightarrow> bool" where
  "is_object (Some (JObj kvs)) = True"
| "is_object (Some (JArr xs)) = True"
| "is_object _ = False"

definition survives :: "json \<Rightarrow> bool" where
  "survives item \<longleftrightarrow>
     get_prop item ''id'' = Some (JStr ''openRecentFolder'') \<and> is_object (get_prop item ''uri'')"

fun is_string :: "jsval \<Rightarrow> bool" where
  "is_string (Some (JStr s)) = True"
| "is_string _ = False"

text \<open>The value of \<^verbatim>\<open>uri.path\<close> of an item, undefined when there is none.\<close>

definition uri_path :: "json \<Rightarrow> jsval" where
  "uri_path item = (case get_prop item ''uri'' of None \<Rightarrow> None | Some u \<Rightarrow> get_prop u ''path'')"

text \<open>The last segment of a label: what follows its last \<open>/\<close>, all of it when it has none.\<close>

definition last_segment :: "string \<Rightarrow> string" where
  "last_segment l = rev (takeWhile (\<lambda>c. c \<noteq> CHR ''/'') (rev l))"

definition spec_label :: "jsval \<Rightarrow> string" where
  "spec_label v = (case v of Some (JStr l) \<Rightarrow> last_segment l | _ \<Rightarrow> [])"

definition spec_project :: "json \<Rightarrow> RecentProject" where
  "spec_project item =
     \<lparr>uri = uri_path item, label = spec_label (get_prop item ''label''), path = uri_path item\<rparr>"

text \<open>A storage file with the given entries in the recent menu, for the examples.\<close>

definition recent_menu :: "json list \<Rightarrow> json" where
  "recent_menu ys =
     JObj [(''id'', JStr ''submenuitem.MenubarRecentMenu''), (''label'', JStr ''Open &&Recent''),
           (''submenu'', JObj [(''items'', JArr ys)])]"

definition storage_of_menu :: "json list \<Rightarrow> json" where
  "storage_of_menu xs =
     JObj [(''lastKnownMenubarData'', JObj [(''menus'', JObj [(''File'', JObj [(''items'', JArr xs)])])])]"

definition folder_entry :: "string \<Rightarrow> string \<Rightarrow> json" where
  "folder_entry l p =
     JObj [(''id'', JStr ''openRecentFolder''), (''label'', JStr l),
           (''uri'', JObj [(''$mid'', JNum 1), (''path'', JStr p), (''scheme'', JStr ''file'')])]"

section \<open>The launcher\<close>

text \<open>Every run of the launcher, by which calls resolve.\<close>

lemma run_cases:
  "openProjectInWindsurf E p =
     (if exec_ok E (launch_command p) then
        (if toast_ok E Success then
           (if close_ok E then
              ([Exec (launch_command p), ShowToast Success, CloseMainWindow], Inr ())
            else
              ([Exec (launch_command p), ShowToast Success, CloseMainWindow, ShowToast Failure],
               if toast_ok E Failure then Inr () else Inl Rejected))
         else
           ([Exec (launch_command p), ShowToast Success, ShowToast Failure],
            if toast_ok E Failure then Inr () else Inl Rejected))
      else
        ([Exec (launch_command p), ShowToast Failure],
         if toast_ok E Failure then Inr () else Inl Rejected))"
  by (simp add: openProjectInWindsurf_def openProjectInWindsurf_try_def then_await_def
      await_def Let_def)

text \<open>
  C9. Whatever the environment and the path \<open>p\<close>, the launcher executes one shell
  command, and it is the text \<^verbatim>\<open>open -a Windsurf "\<close> followed by \<open>p\<close> as it is, followed
  by a double quote: nothing in \<open>p\<close> is escaped.
\<close>

theorem launcher_command_verbatim:
  \<open>executed (fst (openProjectInWindsurf E p)) = [''open -a Windsurf "'' @ p @ ''"'']\<close>
  by (simp add: run_cases launch_command_def)



section \<open>The command without a storage file\<close>

text \<open>
  C7. Without a storage file the \<^verbatim>\<open>try\<close> block returns the empty list by its own
  \<^verbatim>\<open>return\<close> (no exception is involved), the extraction gives the empty list, and the
  command shows the empty view and no row: the same view as for any file from which the
  extraction gives the empty list.
\<close>

theorem missing_file_empty_view:
  "getRecentProjects_try Missing = Inr [] \<and>
   getRecentProjects Missing = Inr [] \<and>
   Command Missing = Inr \<lparr>list_isLoading = False, list_children = EmptyView\<rparr> \<and>
   (\<forall>file. getRecentProjects file = Inr [] \<longrightarrow> Command file = Command Missing)"
  by (simp add: getRecentProjects_try_def getRecentProjects_def try_catch_def Command_def
      effect_def render_def initial_state_def)

theorem missing_file_empty_view_witness:
  "getRecentProjects (Parsed (JObj [])) = Inr [] \<and>
   Command (Parsed (JObj [])) = Command Missing"
proof -
  have g: "getRecentProjects (Parsed (JObj [])) = Inr []"
    by (simp add: getRecentProjects_def try_catch_def getRecentProjects_try_def
        recent_menu_item_def)
  with missing_file_empty_view show ?thesis by blast
qed

section \<open>The callbacks and methods, in closed form\<close>

lemma dot_Some: "dot (Some v) k = (if v = JNull then Inl TypeError else Inr (get_prop v k))"
  by (cases v) simp_all

lemma qdot_the_object: "qdot v k = (case the_object v of None \<Rightarrow> None | Some kvs \<Rightarrow> map_of kvs k)"
  by (induction v k rule: qdot.induct) simp_all

lemma is_recent_menu_eq:
  "is_recent_menu x = (if x = JNull then Inl TypeError else Inr (matches_recent x))"
  by (simp add: is_recent_menu_def dot_Some matches_recent_def strict_eq_str_def)

lemma not_matches_recent_JNull [simp]: "\<not> matches_recent JNull"
  by (simp add: matches_recent_def)

lemma find_js_is_recent:
  "find_js is_recent_menu xs =
     (if JNull \<in> set (takeWhile (\<lambda>x. \<not> matches_recent x) xs) then Inl TypeError
      else Inr (List.find matches_recent xs))"
  by (induction xs) (auto simp: is_recent_menu_eq)

lemma is_open_recent_folder_eq:
  "is_open_recent_folder x =
     (if x = JNull then Inl TypeError
      else Inr (get_prop x ''id'' = Some (JStr ''openRecentFolder'')))"
  by (simp add: is_open_recent_folder_def dot_Some strict_eq_str_def)

lemma truthy_object: "(truthy u \<and> typeof u = ''object'') = is_object u"
  by (cases u rule: is_object.cases) simp_all

lemma has_object_uri_eq:
  "has_object_uri x = (if x = JNull then Inl TypeError else Inr (is_object (get_prop x ''uri'')))"
  by (simp add: has_object_uri_def dot_Some truthy_object)

lemma filter_js_guard:
  "filter_js (\<lambda>x. if bad x then Inl e else Inr (q x)) xs =
     (if \<exists>x\<in>set xs. bad x then Inl e else Inr (filter q xs))"
  by (induction xs) auto

lemma map_js_guard:
  "map_js (\<lambda>x. if bad x then Inl e else Inr (g x)) xs =
     (if \<exists>x\<in>set xs. bad x then Inl e else Inr (map g xs))"
  by (induction xs) auto

lemma split_js_nonempty: "split_js sep s \<noteq> []"
  by (induction s) (auto split: list.splits)

lemma split_js_no_sep: "sep \<notin> set s \<Longrightarrow> split_js sep s = [s]"
  by (induction s) auto

lemma split_js_append: "split_js sep (a @ sep # b) = split_js sep a @ split_js sep b"
proof (induction a)
  case Nil
  show ?case by simp
next
  case (Cons c a)
  obtain s ss where "split_js sep a = s # ss"
    using split_js_nonempty by (cases "split_js sep a") auto
  with Cons show ?case by simp
qed

lemma last_split_js: "last (split_js sep s) = rev (takeWhile (\<lambda>c. c \<noteq> sep) (rev s))"
proof (cases "sep \<in> set s")
  case False
  then have t: "takeWhile (\<lambda>c. c \<noteq> sep) (rev s) = rev s"
    by (auto simp: takeWhile_eq_all_conv)
  show ?thesis
    unfolding t using False by (simp add: split_js_no_sep)
next
  case True
  then obtain a b where s: "s = a @ sep # b" and b: "sep \<notin> set b"
    by (auto dest: split_list_last)
  from b have "takeWhile (\<lambda>c. c \<noteq> sep) (rev b @ sep # rev a) = rev b"
    by (simp add: takeWhile_append)
  with s b show ?thesis
    by (simp add: split_js_append split_js_no_sep)
qed

lemma label_of_split: "or_empty (pop (split_js (CHR ''/'') l)) = last_segment l"
proof -
  obtain s ss where "split_js (CHR ''/'') l = s # ss"
    using split_js_nonempty by (cases "split_js (CHR ''/'') l") auto
  then have "pop (split_js (CHR ''/'') l) = Some (last (split_js (CHR ''/'') l))" by simp
  then show ?thesis by (simp add: last_split_js last_segment_def)
qed

lemma is_string_iff: "is_string v \<longleftrightarrow> (\<exists>s. v = Some (JStr s))"
  by (cases v rule: is_string.cases) simp_all

lemma call_split_not_string: "\<not> is_string v \<Longrightarrow> call_split v sep = Inl TypeError"
  by (cases v rule: is_string.cases) simp_all

lemma dot_eq:
  "dot v k = (if v = None \<or> v = Some JNull then Inl TypeError else Inr (get_prop (the v) k))"
  by (induction v k rule: dot.induct) simp_all

lemma to_project_eq:
  "to_project x =
     (if x = JNull \<or> get_prop x ''uri'' = None \<or> get_prop x ''uri'' = Some JNull
         \<or> \<not> is_string (get_prop x ''label'')
      then Inl TypeError else Inr (spec_project x))"
proof (cases "is_string (get_prop x ''label'')")
  case True
  then obtain s where "get_prop x ''label'' = Some (JStr s)"
    by (auto simp: is_string_iff)
  then show ?thesis
    by (auto simp: to_project_def dot_eq spec_project_def uri_path_def spec_label_def
        label_of_split)
next
  case False
  then show ?thesis
    by (auto simp: to_project_def dot_eq call_split_not_string)
qed

lemma is_object_not_null: "is_object v \<Longrightarrow> v \<noteq> None \<and> v \<noteq> Some JNull"
  by (cases v rule: is_object.cases) simp_all

lemma survives_not_null [simp]: "\<not> survives JNull"
  by (simp add: survives_def)

lemma project_chain_eq:
  "project_chain (Some (JArr ys)) =
     (if JNull \<in> set ys \<or> (\<exists>x\<in>set ys. survives x \<and> \<not> is_string (get_prop x ''label''))
      then Inl TypeError else Inr (map spec_project (filter survives ys)))"
proof -
  let ?q1 = "\<lambda>x. get_prop x ''id'' = Some (JStr ''openRecentFolder'')"
  let ?q2 = "\<lambda>x. is_object (get_prop x ''uri'')"
  have f1: "call_filter (Some (JArr ys)) is_open_recent_folder =
      (if JNull \<in> set ys then Inl TypeError else Inr (filter ?q1 ys))"
    using filter_js_guard [of "\<lambda>x. x = JNull" TypeError ?q1 ys]
    by (simp add: is_open_recent_folder_eq [abs_def])
  have f2: "filter_js has_object_uri (filter ?q1 ys) =
      (if JNull \<in> set (filter ?q1 ys) then Inl TypeError else Inr (filter ?q2 (filter ?q1 ys)))"
    using filter_js_guard [of "\<lambda>x. x = JNull" TypeError ?q2 "filter ?q1 ys"]
    by (simp add: has_object_uri_eq [abs_def])
  have s: "filter ?q2 (filter ?q1 ys) = filter survives ys"
    by (simp add: survives_def [abs_def] conj_commute)
  let ?bad = "\<lambda>x. x = JNull \<or> get_prop x ''uri'' = None \<or> get_prop x ''uri'' = Some JNull
         \<or> \<not> is_string (get_prop x ''label'')"
  have f3: "map_js to_project (filter survives ys) =
      (if \<exists>x\<in>set (filter survives ys). ?bad x then Inl TypeError
       else Inr (map spec_project (filter survives ys)))"
    using map_js_guard [of ?bad TypeError spec_project "filter survives ys"]
    by (simp add: to_project_eq [abs_def])
  have bad: "(\<exists>x\<in>set (filter survives ys). ?bad x) \<longleftrightarrow>
      (\<exists>x\<in>set ys. survives x \<and> \<not> is_string (get_prop x ''label''))"
    by (auto simp: survives_def dest: is_object_not_null)
  show ?thesis
  proof (cases "JNull \<in> set ys")
    case True
    then show ?thesis
      unfolding project_chain_def f1 by simp
  next
    case False
    then have "filter_js has_object_uri (filter ?q1 ys) = Inr (filter survives ys)"
      unfolding f2 s by simp
    with False have "project_chain (Some (JArr ys)) = map_js to_project (filter survives ys)"
      unfolding project_chain_def f1 by simp
    with False show ?thesis
      unfolding f3 bad by simp
  qed
qed

section \<open>The navigation, in closed form\<close>

lemma the_array_iff: "the_array v = Some ys \<longleftrightarrow> v = Some (JArr ys)"
  by (cases v rule: the_array.cases) auto

lemma not_truthy_the_array: "\<not> truthy v \<Longrightarrow> the_array v = None"
  by (cases v rule: the_array.cases) simp_all

lemma call_find_not_array: "the_array v = None \<Longrightarrow> call_find v p = Inl TypeError"
  by (cases v rule: the_array.cases) simp_all

lemma call_filter_not_array: "the_array v = None \<Longrightarrow> call_filter v p = Inl TypeError"
  by (cases v rule: the_array.cases) simp_all

lemma project_chain_not_array: "the_array v = None \<Longrightarrow> project_chain v = Inl TypeError"
  by (simp add: project_chain_def call_filter_not_array)

lemma file_menu_shaped:
  "the_array (qdot (qdot (qdot (get_prop doc ''lastKnownMenubarData'') ''menus'') ''File'') ''items'')
     = shaped_file_items doc"
  by (simp add: shaped_file_items_def qdot_the_object split: option.splits)

lemma submenu_shaped:
  "the_array (qdot (get_prop item ''submenu'') ''items'') = shaped_submenu_items item"
  by (simp add: shaped_submenu_items_def qdot_the_object split: option.splits)

lemma shaped_file_items_JNull [simp]: "shaped_file_items JNull = None"
  by (simp add: shaped_file_items_def)

lemma truthy_qdot_dot: "truthy (qdot v k) \<Longrightarrow> dot v k = Inr (qdot v k)"
  by (induction v k rule: qdot.induct) simp_all

lemma matches_recent_truthy: "matches_recent item \<Longrightarrow> truthy (Some item) \<and> item \<noteq> JNull"
  by (cases item) (simp_all add: matches_recent_def)

lemma recent_menu_item_unshaped:
  assumes "shaped_file_items doc = None"
  shows "recent_menu_item doc = Inr None \<or> recent_menu_item doc = Inl TypeError"
proof (cases "doc = JNull")
  case True
  then show ?thesis by (simp add: recent_menu_item_def)
next
  case False
  let ?fm = "qdot (qdot (qdot (get_prop doc ''lastKnownMenubarData'') ''menus'') ''File'') ''items''"
  from assms have "the_array ?fm = None" by (simp add: file_menu_shaped)
  then have "call_find ?fm is_recent_menu = Inl TypeError" by (rule call_find_not_array)
  with False show ?thesis by (simp add: recent_menu_item_def dot_Some Let_def)
qed

lemma recent_menu_item_shaped:
  assumes "shaped_file_items doc = Some xs"
  shows "recent_menu_item doc =
     (if JNull \<in> set (takeWhile (\<lambda>x. \<not> matches_recent x) xs) then Inl TypeError
      else (case List.find matches_recent xs of
              None \<Rightarrow> Inr None
            | Some item \<Rightarrow>
                if truthy (qdot (get_prop item ''submenu'') ''items'') then Inr (Some item)
                else Inr None))"
proof -
  let ?fm = "qdot (qdot (qdot (get_prop doc ''lastKnownMenubarData'') ''menus'') ''File'') ''items''"
  from assms have nn: "doc \<noteq> JNull" by auto
  from assms have fm: "?fm = Some (JArr xs)" by (simp add: file_menu_shaped [symmetric] the_array_iff)
  have "recent_menu_item doc =
      (case find_js is_recent_menu xs of
         Inl e \<Rightarrow> Inl e
       | Inr r \<Rightarrow>
           if \<not> truthy r then Inr None
           else (case dot r ''submenu'' of
                   Inl e \<Rightarrow> Inl e
                 | Inr sub \<Rightarrow> if \<not> truthy (qdot sub ''items'') then Inr None else Inr r))"
    using nn by (simp add: recent_menu_item_def dot_Some Let_def fm)
  also have "\<dots> = (if JNull \<in> set (takeWhile (\<lambda>x. \<not> matches_recent x) xs) then Inl TypeError
      else (case List.find matches_recent xs of
              None \<Rightarrow> Inr None
            | Some item \<Rightarrow>
                if truthy (qdot (get_prop item ''submenu'') ''items'') then Inr (Some item)
                else Inr None))"
    by (auto simp: find_js_is_recent dot_Some split: option.splits
        dest!: find_Some_iff [THEN iffD1] dest: matches_recent_truthy)
  finally show ?thesis .
qed

lemma try_reaches:
  assumes "reaches doc ys"
  shows "getRecentProjects_try (Parsed doc) = project_chain (Some (JArr ys))"
proof -
  from assms obtain xs item where
    xs: "shaped_file_items doc = Some xs" and
    nn: "JNull \<notin> set (takeWhile (\<lambda>x. \<not> matches_recent x) xs)" and
    item: "List.find matches_recent xs = Some item" and
    ys: "shaped_submenu_items item = Some ys"
    by (auto simp: reaches_def split: option.splits)
  from ys have v: "qdot (get_prop item ''submenu'') ''items'' = Some (JArr ys)"
    by (simp add: submenu_shaped [symmetric] the_array_iff)
  from item have m: "matches_recent item" by (auto simp: find_Some_iff)
  then have inn: "item \<noteq> JNull" by (auto dest: matches_recent_truthy)
  have r: "recent_menu_item doc = Inr (Some item)"
    using nn item v by (simp add: recent_menu_item_shaped [OF xs])
  have d: "dot (get_prop item ''submenu'') ''items'' = Inr (Some (JArr ys))"
    using truthy_qdot_dot [of "get_prop item ''submenu''" "''items''"] v by simp
  show ?thesis
    using inn by (simp add: getRecentProjects_try_def r dot_Some d)
qed

lemma try_not_reaches:
  assumes "\<And>ys. \<not> reaches doc ys"
  shows "getRecentProjects_try (Parsed doc) = Inr [] \<or>
         getRecentProjects_try (Parsed doc) = Inl TypeError"
proof (cases "shaped_file_items doc")
  case None
  from recent_menu_item_unshaped [OF None] show ?thesis
    by (auto simp: getRecentProjects_try_def)
next
  case (Some xs)
  show ?thesis
  proof (cases "JNull \<in> set (takeWhile (\<lambda>x. \<not> matches_recent x) xs)")
    case True
    then show ?thesis by (simp add: getRecentProjects_try_def recent_menu_item_shaped [OF Some])
  next
    case False
    note nn = this
    show ?thesis
    proof (cases "List.find matches_recent xs")
      case None
      with nn show ?thesis
        by (simp add: getRecentProjects_try_def recent_menu_item_shaped [OF Some])
    next
      case (Some item)
      note item = this
      let ?v = "qdot (get_prop item ''submenu'') ''items''"
      from item have m: "matches_recent item" by (auto simp: find_Some_iff)
      then have inn: "item \<noteq> JNull" by (auto dest: matches_recent_truthy)
      from assms \<open>shaped_file_items doc = Some xs\<close> nn item
      have "shaped_submenu_items item = None"
        by (cases "shaped_submenu_items item") (auto simp: reaches_def)
      then have na: "the_array ?v = None" by (simp add: submenu_shaped)
      show ?thesis
      proof (cases "truthy ?v")
        case False
        with nn item show ?thesis
          by (simp add: getRecentProjects_try_def recent_menu_item_shaped [OF \<open>shaped_file_items doc = Some xs\<close>])
      next
        case True
        then have d: "dot (get_prop item ''submenu'') ''items'' = Inr ?v"
          by (rule truthy_qdot_dot)
        have r: "recent_menu_item doc = Inr (Some item)"
          using nn item True by (simp add: recent_menu_item_shaped [OF \<open>shaped_file_items doc = Some xs\<close>])
        show ?thesis
          using inn by (simp add: getRecentProjects_try_def r dot_Some d project_chain_not_array [OF na])
      qed
    qed
  qed
qed

lemma last_segment_suffix:
  "CHR ''/'' \<notin> set (last_segment l) \<and>
   (l = last_segment l \<or> (\<exists>pre. l = pre @ CHR ''/'' # last_segment l))"
proof (cases "CHR ''/'' \<in> set l")
  case False
  then have "takeWhile (\<lambda>c. c \<noteq> CHR ''/'') (rev l) = rev l"
    by (auto simp: takeWhile_eq_all_conv)
  then have "last_segment l = l" by (simp only: last_segment_def rev_rev_ident)
  with False show ?thesis by simp
next
  case True
  then obtain a b where l: "l = a @ CHR ''/'' # b" and b: "CHR ''/'' \<notin> set b"
    by (auto dest: split_list_last)
  from b have "takeWhile (\<lambda>c. c \<noteq> CHR ''/'') (rev b @ CHR ''/'' # rev a) = rev b"
    by (simp add: takeWhile_append)
  with l have "last_segment l = b" by (simp add: last_segment_def)
  with l b show ?thesis by auto
qed

lemma catch_TypeError:
  "getRecentProjects_try file = Inl e \<Longrightarrow> getRecentProjects file = Inr []"
  by (simp add: getRecentProjects_def try_catch_def)

lemma catch_return:
  "getRecentProjects_try file = Inr ps \<Longrightarrow> getRecentProjects file = Inr ps"
  by (simp add: getRecentProjects_def try_catch_def)

lemma not_reaches_empty:
  "(\<And>ys. \<not> reaches doc ys) \<Longrightarrow> getRecentProjects (Parsed doc) = Inr []"
  using try_not_reaches [of doc] by (auto simp: getRecentProjects_def try_catch_def)

lemma reaches_wellformed:
  assumes "reaches doc ys" and "JNull \<notin> set ys"
    and "\<forall>x\<in>set ys. survives x \<longrightarrow> is_string (get_prop x ''label'')"
  shows "getRecentProjects (Parsed doc) = Inr (map spec_project (filter survives ys))"
proof -
  from assms(2,3) have "project_chain (Some (JArr ys)) = Inr (map spec_project (filter survives ys))"
    by (auto simp: project_chain_eq)
  with try_reaches [OF assms(1)] show ?thesis by (simp add: catch_return)
qed

text \<open>The example storage file leads to the entries put into its recent menu.\<close>

lemma reaches_example: "reaches (storage_of_menu [recent_menu ys]) ys"
  by (simp add: storage_of_menu_def recent_menu_def shaped_file_items_def
      shaped_submenu_items_def matches_recent_def reaches_def)

section \<open>Malformed storage files\<close>

text \<open>
  C1. When \<^verbatim>\<open>lastKnownMenubarData\<close>, \<^verbatim>\<open>menus\<close> or \<^verbatim>\<open>File\<close> is absent or not an object, or
  the \<^verbatim>\<open>items\<close> of the File menu is absent or not an array, the extraction returns the
  empty list; so it does when the recent-menu entry has no \<^verbatim>\<open>submenu\<close> object with an
  \<^verbatim>\<open>items\<close> array. On every parsed value the extraction returns a list: no exception
  leaves it.
\<close>

theorem malformed_navigation_empty:
  "(shaped_file_items doc = None \<longrightarrow> getRecentProjects (Parsed doc) = Inr []) \<and>
   (\<forall>xs item. shaped_file_items doc = Some xs \<and> List.find matches_recent xs = Some item \<and>
      shaped_submenu_items item = None \<longrightarrow> getRecentProjects (Parsed doc) = Inr []) \<and>
   (\<exists>ps. getRecentProjects (Parsed doc) = Inr ps)"
proof (intro conjI impI allI)
  assume "shaped_file_items doc = None"
  then have "\<And>ys. \<not> reaches doc ys" by (simp add: reaches_def)
  then show "getRecentProjects (Parsed doc) = Inr []" by (rule not_reaches_empty)
next
  fix xs item
  assume "shaped_file_items doc = Some xs \<and> List.find matches_recent xs = Some item \<and>
      shaped_submenu_items item = None"
  then have "\<And>ys. \<not> reaches doc ys" by (simp add: reaches_def)
  then show "getRecentProjects (Parsed doc) = Inr []" by (rule not_reaches_empty)
next
  show "\<exists>ps. getRecentProjects (Parsed doc) = Inr ps"
    by (simp add: getRecentProjects_def try_catch_def split: sum.splits)
qed

theorem malformed_navigation_empty_witness:
  "shaped_file_items (JObj [(''lastKnownMenubarData'', JObj [(''menus'', JArr [])])]) = None \<and>
   getRecentProjects (Parsed (JObj [(''lastKnownMenubarData'', JObj [(''menus'', JArr [])])])) = Inr [] \<and>
   shaped_submenu_items (JObj [(''id'', JStr ''submenuitem.MenubarRecentMenu''),
       (''label'', JStr ''Open &&Recent''), (''submenu'', JStr ''none'')]) = None \<and>
   getRecentProjects (Parsed (storage_of_menu [JObj [(''id'', JStr ''submenuitem.MenubarRecentMenu''),
       (''label'', JStr ''Open &&Recent''), (''submenu'', JStr ''none'')]])) = Inr []"
proof -
  let ?d1 = "JObj [(''lastKnownMenubarData'', JObj [(''menus'', JArr [])])]"
  let ?item = "JObj [(''id'', JStr ''submenuitem.MenubarRecentMenu''),
       (''label'', JStr ''Open &&Recent''), (''submenu'', JStr ''none'')]"
  have a: "shaped_file_items ?d1 = None" by (simp add: shaped_file_items_def)
  have b: "shaped_file_items (storage_of_menu [?item]) = Some [?item]"
    by (simp add: shaped_file_items_def storage_of_menu_def)
  have c: "List.find matches_recent [?item] = Some ?item" by (simp add: matches_recent_def)
  have d: "shaped_submenu_items ?item = None" by (simp add: shaped_submenu_items_def)
  from malformed_navigation_empty [of ?d1] a
  have "getRecentProjects (Parsed ?d1) = Inr []" by blast
  moreover from malformed_navigation_empty [of "storage_of_menu [?item]"] b c d
  have "getRecentProjects (Parsed (storage_of_menu [?item])) = Inr []" by blast
  ultimately show ?thesis using a d by simp
qed

section \<open>The recent menu\<close>

text \<open>
  C4 as stated does not hold for every File menu: a null item before the recent menu makes
  the callback of \<^verbatim>\<open>find\<close> throw on \<^verbatim>\<open>item.id\<close>, and the extraction returns the empty list
  although a matching item with a folder follows. Without the null item the same menu
  gives the project.
\<close>

theorem null_before_recent_menu_counterexample:
  "getRecentProjects (Parsed (storage_of_menu
      [JNull, recent_menu [folder_entry ''alice/dev/proj'' ''/Users/alice/dev/proj'']])) = Inr [] \<and>
   getRecentProjects (Parsed (storage_of_menu
      [recent_menu [folder_entry ''alice/dev/proj'' ''/Users/alice/dev/proj'']])) =
     Inr [\<lparr>uri = Some (JStr ''/Users/alice/dev/proj''), label = ''proj'',
           path = Some (JStr ''/Users/alice/dev/proj'')\<rparr>]"
proof -
  let ?ys = "[folder_entry ''alice/dev/proj'' ''/Users/alice/dev/proj'']"
  have s: "shaped_file_items (storage_of_menu [JNull, recent_menu ?ys]) = Some [JNull, recent_menu ?ys]"
    by (simp add: shaped_file_items_def storage_of_menu_def)
  have "recent_menu_item (storage_of_menu [JNull, recent_menu ?ys]) = Inl TypeError"
    by (simp add: recent_menu_item_shaped [OF s])
  then have "getRecentProjects_try (Parsed (storage_of_menu [JNull, recent_menu ?ys])) = Inl TypeError"
    by (simp add: getRecentProjects_try_def)
  then have 1: "getRecentProjects (Parsed (storage_of_menu [JNull, recent_menu ?ys])) = Inr []"
    by (rule catch_TypeError)
  have 2: "getRecentProjects (Parsed (storage_of_menu [recent_menu ?ys])) =
     Inr [\<lparr>uri = Some (JStr ''/Users/alice/dev/proj''), label = ''proj'',
           path = Some (JStr ''/Users/alice/dev/proj'')\<rparr>]"
    using reaches_wellformed [OF reaches_example, of ?ys]
    by (simp add: survives_def folder_entry_def spec_project_def uri_path_def spec_label_def
        last_segment_def)
  from 1 2 show ?thesis by simp
qed

text \<open>
  C4, amended. Among the items of the File menu, when none of the items before it is null,
  the extraction takes the first one whose \<^verbatim>\<open>id\<close> is exactly
  \<^verbatim>\<open>submenuitem.MenubarRecentMenu\<close> and whose \<^verbatim>\<open>label\<close> is exactly \<^verbatim>\<open>Open &&Recent\<close>: the
  result is the one computed from the \<^verbatim>\<open>submenu.items\<close> of that item, and the empty list
  when the item has no such array. When no item matches, the result is the empty list.
\<close>

theorem recent_menu_selection:
  assumes "shaped_file_items doc = Some xs"
  shows "(List.find matches_recent xs = None \<longrightarrow> getRecentProjects (Parsed doc) = Inr []) \<and>
         (\<forall>pre item post.
            xs = pre @ item # post \<and> matches_recent item \<and>
            (\<forall>x\<in>set pre. \<not> matches_recent x \<and> x \<noteq> JNull) \<longrightarrow>
            getRecentProjects (Parsed doc) =
              (case shaped_submenu_items item of
                 None \<Rightarrow> Inr []
               | Some ys \<Rightarrow> try_catch (project_chain (Some (JArr ys))) (\<lambda>e. Inr [])))"
proof (intro conjI impI allI)
  assume "List.find matches_recent xs = None"
  with assms have "\<And>ys. \<not> reaches doc ys" by (simp add: reaches_def)
  then show "getRecentProjects (Parsed doc) = Inr []" by (rule not_reaches_empty)
next
  fix pre item post
  assume h: "xs = pre @ item # post \<and> matches_recent item \<and>
            (\<forall>x\<in>set pre. \<not> matches_recent x \<and> x \<noteq> JNull)"
  then have tw: "takeWhile (\<lambda>x. \<not> matches_recent x) xs = pre"
    by (simp add: takeWhile_append2 takeWhile_tail)
  from h have f: "List.find matches_recent xs = Some item"
    by (auto simp: find_Some_iff nth_append intro!: exI [of _ "length pre"])
  from h tw have nn: "JNull \<notin> set (takeWhile (\<lambda>x. \<not> matches_recent x) xs)" by auto
  show "getRecentProjects (Parsed doc) =
              (case shaped_submenu_items item of
                 None \<Rightarrow> Inr []
               | Some ys \<Rightarrow> try_catch (project_chain (Some (JArr ys))) (\<lambda>e. Inr []))"
  proof (cases "shaped_submenu_items item")
    case None
    with assms f have "\<And>ys. \<not> reaches doc ys" by (simp add: reaches_def)
    with None show ?thesis by (simp add: not_reaches_empty)
  next
    case (Some ys)
    with assms f nn have "reaches doc ys" by (simp add: reaches_def)
    from try_reaches [OF this] Some show ?thesis by (simp add: getRecentProjects_def)
  qed
qed

theorem recent_menu_selection_witness:
  "getRecentProjects (Parsed (storage_of_menu
      [JObj [(''id'', JStr ''submenuitem.MenubarRecentMenu''), (''label'', JStr ''Open Recent'')]])) = Inr [] \<and>
   getRecentProjects (Parsed (storage_of_menu
      [JObj [(''id'', JStr ''submenuitem.MenubarRecentMenu''), (''label'', JStr ''Open Recent''),
             (''submenu'', JObj [(''items'', JArr [folder_entry ''x/other'' ''/x/other''])])],
       recent_menu [folder_entry ''alice/dev/proj'' ''/Users/alice/dev/proj''],
       recent_menu []])) =
     Inr [\<lparr>uri = Some (JStr ''/Users/alice/dev/proj''), label = ''proj'',
           path = Some (JStr ''/Users/alice/dev/proj'')\<rparr>]"
proof -
  let ?near = "JObj [(''id'', JStr ''submenuitem.MenubarRecentMenu''), (''label'', JStr ''Open Recent'')]"
  let ?near2 = "JObj [(''id'', JStr ''submenuitem.MenubarRecentMenu''), (''label'', JStr ''Open Recent''),
             (''submenu'', JObj [(''items'', JArr [folder_entry ''x/other'' ''/x/other''])])]"
  let ?ys = "[folder_entry ''alice/dev/proj'' ''/Users/alice/dev/proj'']"
  have a: "shaped_file_items (storage_of_menu [?near]) = Some [?near]"
    by (simp add: shaped_file_items_def storage_of_menu_def)
  have b: "List.find matches_recent [?near] = None" by (simp add: matches_recent_def)
  have c: "shaped_file_items (storage_of_menu [?near2, recent_menu ?ys, recent_menu []])
      = Some ([?near2] @ recent_menu ?ys # [recent_menu []])"
    by (simp add: shaped_file_items_def storage_of_menu_def)
  have d: "matches_recent (recent_menu ?ys) \<and> (\<forall>x\<in>set [?near2]. \<not> matches_recent x \<and> x \<noteq> JNull)"
    by (simp add: matches_recent_def recent_menu_def)
  have e: "shaped_submenu_items (recent_menu ?ys) = Some ?ys"
    by (simp add: shaped_submenu_items_def recent_menu_def)
  have f: "try_catch (project_chain (Some (JArr ?ys))) (\<lambda>e. Inr []) =
     Inr [\<lparr>uri = Some (JStr ''/Users/alice/dev/proj''), label = ''proj'',
           path = Some (JStr ''/Users/alice/dev/proj'')\<rparr>]"
    by (simp add: project_chain_eq try_catch_def survives_def folder_entry_def spec_project_def
        uri_path_def spec_label_def last_segment_def)
  from recent_menu_selection [OF a] b
  have 1: "getRecentProjects (Parsed (storage_of_menu [?near])) = Inr []" by blast
  from recent_menu_selection [OF c] d
  have "getRecentProjects (Parsed (storage_of_menu [?near2, recent_menu ?ys, recent_menu []])) =
      (case shaped_submenu_items (recent_menu ?ys) of
                 None \<Rightarrow> Inr []
               | Some ys \<Rightarrow> try_catch (project_chain (Some (JArr ys))) (\<lambda>e. Inr []))"
    by blast
  with e f have 2: "getRecentProjects (Parsed (storage_of_menu [?near2, recent_menu ?ys, recent_menu []])) =
     Inr [\<lparr>uri = Some (JStr ''/Users/alice/dev/proj''), label = ''proj'',
           path = Some (JStr ''/Users/alice/dev/proj'')\<rparr>]" by simp
  from 1 2 show ?thesis by simp
qed

section \<open>The projects of a recent menu\<close>

text \<open>
  C2. For a recent menu whose entries are not null and whose surviving entries have a
  string label, the output is made of exactly the entries whose \<^verbatim>\<open>id\<close> is
  \<^verbatim>\<open>openRecentFolder\<close> and whose \<^verbatim>\<open>uri\<close> is an object, one project for each, in the order
  of the input: nothing is sorted, merged or cut off.
\<close>

theorem surviving_items_in_order:
  assumes "reaches doc ys" and "JNull \<notin> set ys"
    and "\<forall>x\<in>set ys. survives x \<longrightarrow> is_string (get_prop x ''label'')"
  shows "getRecentProjects (Parsed doc) = Inr (map spec_project (filter survives ys))"
  using assms by (rule reaches_wellformed)

theorem surviving_items_in_order_witness:
  "getRecentProjects (Parsed (storage_of_menu [recent_menu
      [folder_entry ''w/zeta'' ''/w/zeta'',
       JObj [(''id'', JStr ''openRecentFile''), (''label'', JStr ''w/notes.txt''),
             (''uri'', JObj [(''path'', JStr ''/w/notes.txt'')])],
       JObj [(''id'', JStr ''openRecentFolder''), (''label'', JStr ''w/bare''),
             (''uri'', JStr ''file:///w/bare'')],
       JObj [(''id'', JStr ''openRecentFolder''), (''label'', JStr ''w/nouri'')],
       folder_entry ''w/alpha'' ''/w/alpha'',
       folder_entry ''w/zeta'' ''/w/zeta'']])) =
   Inr [\<lparr>uri = Some (JStr ''/w/zeta''), label = ''zeta'', path = Some (JStr ''/w/zeta'')\<rparr>,
        \<lparr>uri = Some (JStr ''/w/alpha''), label = ''alpha'', path = Some (JStr ''/w/alpha'')\<rparr>,
        \<lparr>uri = Some (JStr ''/w/zeta''), label = ''zeta'', path = Some (JStr ''/w/zeta'')\<rparr>]"
  using surviving_items_in_order [OF reaches_example, of
      "[folder_entry ''w/zeta'' ''/w/zeta'',
       JObj [(''id'', JStr ''openRecentFile''), (''label'', JStr ''w/notes.txt''),
             (''uri'', JObj [(''path'', JStr ''/w/notes.txt'')])],
       JObj [(''id'', JStr ''openRecentFolder''), (''label'', JStr ''w/bare''),
             (''uri'', JStr ''file:///w/bare'')],
       JObj [(''id'', JStr ''openRecentFolder''), (''label'', JStr ''w/nouri'')],
       folder_entry ''w/alpha'' ''/w/alpha'',
       folder_entry ''w/zeta'' ''/w/zeta'']"]
  by (simp add: survives_def folder_entry_def spec_project_def uri_path_def spec_label_def
      last_segment_def)

text \<open>
  C3. For an entry that survives both filters, with uri \<open>u\<close> and the string \<open>l\<close> as label,
  the project made of it has \<^verbatim>\<open>path\<close> and \<^verbatim>\<open>uri\<close> both equal to the value of \<^verbatim>\<open>u.path\<close>,
  unchanged, and as \<^verbatim>\<open>label\<close> the last segment of \<open>l\<close>: the part of \<open>l\<close> after its last
  \<open>/\<close>, or \<open>l\<close> itself when it has none. That project is in the output. For the path
  \<^verbatim>\<open>/Users/alice/dev/proj\<close> and the label \<^verbatim>\<open>alice/dev/proj\<close> the output has that path and
  the label \<^verbatim>\<open>proj\<close>.
\<close>

theorem project_fields:
  assumes "reaches doc ys" and "JNull \<notin> set ys"
    and "\<forall>x\<in>set ys. survives x \<longrightarrow> is_string (get_prop x ''label'')"
    and "x \<in> set ys" and "survives x"
    and "get_prop x ''uri'' = Some u" and "get_prop x ''label'' = Some (JStr l)"
  shows "to_project x =
           Inr \<lparr>uri = get_prop u ''path'', label = last_segment l, path = get_prop u ''path''\<rparr> \<and>
         (\<exists>ps. getRecentProjects (Parsed doc) = Inr ps \<and>
            \<lparr>uri = get_prop u ''path'', label = last_segment l, path = get_prop u ''path''\<rparr> \<in> set ps) \<and>
         CHR ''/'' \<notin> set (last_segment l) \<and>
         (l = last_segment l \<or> (\<exists>pre. l = pre @ CHR ''/'' # last_segment l))"
proof -
  let ?p = "\<lparr>uri = get_prop u ''path'', label = last_segment l, path = get_prop u ''path''\<rparr>"
  have sp: "spec_project x = ?p"
    using assms(6,7) by (simp add: spec_project_def uri_path_def spec_label_def)
  from assms(5,6) have "u \<noteq> JNull" by (auto simp: survives_def)
  with assms(5,6,7) have 1: "to_project x = Inr ?p"
    by (auto simp: to_project_eq sp survives_def)
  have "getRecentProjects (Parsed doc) = Inr (map spec_project (filter survives ys))"
    using assms(1,2,3) by (rule reaches_wellformed)
  moreover have "?p \<in> set (map spec_project (filter survives ys))"
    using assms(4,5) sp by force
  ultimately have 2: "\<exists>ps. getRecentProjects (Parsed doc) = Inr ps \<and> ?p \<in> set ps" by blast
  from 1 2 last_segment_suffix [of l] show ?thesis by blast
qed

theorem project_fields_witness:
  "to_project (folder_entry ''alice/dev/proj'' ''/Users/alice/dev/proj'') =
     Inr \<lparr>uri = Some (JStr ''/Users/alice/dev/proj''), label = ''proj'',
          path = Some (JStr ''/Users/alice/dev/proj'')\<rparr> \<and>
   (\<exists>ps. getRecentProjects (Parsed (storage_of_menu
            [recent_menu [folder_entry ''alice/dev/proj'' ''/Users/alice/dev/proj'']])) = Inr ps \<and>
      \<lparr>uri = Some (JStr ''/Users/alice/dev/proj''), label = ''proj'',
       path = Some (JStr ''/Users/alice/dev/proj'')\<rparr> \<in> set ps)"
proof -
  let ?x = "folder_entry ''alice/dev/proj'' ''/Users/alice/dev/proj''"
  let ?u = "JObj [(''$mid'', JNum 1), (''path'', JStr ''/Users/alice/dev/proj''), (''scheme'', JStr ''file'')]"
  have r: "reaches (storage_of_menu [recent_menu [?x]]) [?x]" by (rule reaches_example)
  have a: "JNull \<notin> set [?x]" by (simp add: folder_entry_def)
  have b: "\<forall>x\<in>set [?x]. survives x \<longrightarrow> is_string (get_prop x ''label'')"
    by (simp add: folder_entry_def)
  have c: "?x \<in> set [?x]" by simp
  have d: "survives ?x" by (simp add: survives_def folder_entry_def)
  have e: "get_prop ?x ''uri'' = Some ?u" by (simp add: folder_entry_def)
  have f: "get_prop ?x ''label'' = Some (JStr ''alice/dev/proj'')" by (simp add: folder_entry_def)
  have g: "last_segment ''alice/dev/proj'' = ''proj''" by (simp add: last_segment_def)
  have h: "get_prop ?u ''path'' = Some (JStr ''/Users/alice/dev/proj'')" by simp
  from project_fields [OF r a b c d e f] show ?thesis
    unfolding g h by blast
qed

section \<open>The path of a project\<close>

text \<open>
  C5 as stated does not hold: nothing checks \<^verbatim>\<open>uri.path\<close>. An entry whose uri is the
  empty object gives a project whose path is undefined, and an entry whose \<^verbatim>\<open>uri.path\<close> is
  the empty string gives a project with the empty path.
\<close>

theorem path_nonempty_counterexample:
  "getRecentProjects (Parsed (storage_of_menu [recent_menu
      [JObj [(''id'', JStr ''openRecentFolder''), (''label'', JStr ''w/proj''), (''uri'', JObj [])],
       JObj [(''id'', JStr ''openRecentFolder''), (''label'', JStr ''w/other''),
             (''uri'', JObj [(''path'', JStr '''')])]]])) =
   Inr [\<lparr>uri = None, label = ''proj'', path = None\<rparr>,
        \<lparr>uri = Some (JStr ''''), label = ''other'', path = Some (JStr '''')\<rparr>]"
  using reaches_wellformed [OF reaches_example, of
      "[JObj [(''id'', JStr ''openRecentFolder''), (''label'', JStr ''w/proj''), (''uri'', JObj [])],
       JObj [(''id'', JStr ''openRecentFolder''), (''label'', JStr ''w/other''),
             (''uri'', JObj [(''path'', JStr '''')])]]"]
  by (simp add: survives_def spec_project_def uri_path_def spec_label_def last_segment_def)

text \<open>
  C5, amended. Every project in the output, of any storage file, was made from an entry
  of the recent menu that passed both filters, and its \<^verbatim>\<open>path\<close> and its \<^verbatim>\<open>uri\<close> are the
  value of \<^verbatim>\<open>uri.path\<close> of that entry, whatever it is.
\<close>

theorem path_is_uri_path:
  assumes "getRecentProjects file = Inr ps" and "p \<in> set ps"
  shows "\<exists>doc ys x. file = Parsed doc \<and> reaches doc ys \<and> x \<in> set ys \<and> survives x \<and>
           path p = uri_path x \<and> uri p = uri_path x"
proof (cases "file")
  case Missing
  with assms show ?thesis
    by (auto simp: getRecentProjects_def getRecentProjects_try_def try_catch_def)
next
  case Unreadable
  with assms show ?thesis
    by (auto simp: getRecentProjects_def getRecentProjects_try_def try_catch_def)
next
  case Malformed
  with assms show ?thesis
    by (auto simp: getRecentProjects_def getRecentProjects_try_def try_catch_def)
next
  case (Parsed doc)
  show ?thesis
  proof (cases "\<exists>ys. reaches doc ys")
    case False
    then have "getRecentProjects (Parsed doc) = Inr []" by (auto intro: not_reaches_empty)
    with assms Parsed show ?thesis by simp
  next
    case True
    then obtain ys where r: "reaches doc ys" ..
    have t: "getRecentProjects_try (Parsed doc) = project_chain (Some (JArr ys))"
      using r by (rule try_reaches)
    show ?thesis
    proof (cases "project_chain (Some (JArr ys))")
      case (Inl e)
      with t have "getRecentProjects (Parsed doc) = Inr []" by (simp add: catch_TypeError)
      with assms Parsed show ?thesis by simp
    next
      case (Inr qs)
      with t have "getRecentProjects (Parsed doc) = Inr qs" by (simp add: catch_return)
      with assms Parsed have "ps = qs" by simp
      moreover from Inr have "qs = map spec_project (filter survives ys)"
        by (simp add: project_chain_eq split: if_splits)
      ultimately obtain x where "x \<in> set ys" "survives x" "p = spec_project x"
        using assms(2) by auto
      with r Parsed show ?thesis by (auto simp: spec_project_def)
    qed
  qed
qed

theorem path_is_uri_path_witness:
  "\<exists>doc ys x. Parsed (storage_of_menu [recent_menu [folder_entry ''w/proj'' ''/w/proj'']]) = Parsed doc \<and>
     reaches doc ys \<and> x \<in> set ys \<and> survives x \<and>
     path \<lparr>uri = Some (JStr ''/w/proj''), label = ''proj'', path = Some (JStr ''/w/proj'')\<rparr> = uri_path x \<and>
     uri \<lparr>uri = Some (JStr ''/w/proj''), label = ''proj'', path = Some (JStr ''/w/proj'')\<rparr> = uri_path x"
proof -
  let ?p = "\<lparr>uri = Some (JStr ''/w/proj''), label = ''proj'', path = Some (JStr ''/w/proj'')\<rparr>"
  have "getRecentProjects (Parsed (storage_of_menu [recent_menu [folder_entry ''w/proj'' ''/w/proj'']]))
      = Inr [?p]"
    using reaches_wellformed [OF reaches_example, of "[folder_entry ''w/proj'' ''/w/proj'']"]
    by (simp add: survives_def folder_entry_def spec_project_def uri_path_def spec_label_def
        last_segment_def)
  moreover have "?p \<in> set [?p]" by simp
  ultimately show ?thesis by (rule path_is_uri_path)
qed

section \<open>Labels\<close>

text \<open>
  C6 as stated does not hold for an absent label: the entry without a label makes
  \<^verbatim>\<open>split\<close> throw, and the entry before it is lost as well.
\<close>

theorem absent_label_counterexample:
  "getRecentProjects (Parsed (storage_of_menu [recent_menu
      [folder_entry ''alice/dev/proj'' ''/Users/alice/dev/proj'',
       JObj [(''id'', JStr ''openRecentFolder''), (''uri'', JObj [(''path'', JStr ''/w/nolabel'')])]]])) =
   Inr []"
proof -
  let ?ys = "[folder_entry ''alice/dev/proj'' ''/Users/alice/dev/proj'',
       JObj [(''id'', JStr ''openRecentFolder''), (''uri'', JObj [(''path'', JStr ''/w/nolabel'')])]]"
  have "project_chain (Some (JArr ?ys)) = Inl TypeError"
    by (simp add: project_chain_eq survives_def folder_entry_def)
  with try_reaches [OF reaches_example, of ?ys] show ?thesis
    by (simp add: catch_TypeError)
qed

text \<open>
  C6, amended. In a recent menu whose entries are not null and whose surviving entries
  have a string label, a surviving entry with the empty label gives a project with the
  empty label, and every surviving entry has its project in the output.
\<close>

theorem empty_label_project:
  assumes "reaches doc ys" and "JNull \<notin> set ys"
    and "\<forall>y\<in>set ys. survives y \<longrightarrow> is_string (get_prop y ''label'')"
    and "x \<in> set ys" and "survives x" and "get_prop x ''label'' = Some (JStr [])"
  shows "\<exists>ps. getRecentProjects (Parsed doc) = Inr ps \<and>
           length ps = length (filter survives ys) \<and>
           \<lparr>uri = uri_path x, label = [], path = uri_path x\<rparr> \<in> set ps \<and>
           (\<forall>y\<in>set ys. survives y \<longrightarrow> (\<exists>q\<in>set ps. path q = uri_path y))"
proof -
  let ?ps = "map spec_project (filter survives ys)"
  have g: "getRecentProjects (Parsed doc) = Inr ?ps"
    using assms(1,2,3) by (rule reaches_wellformed)
  have "spec_project x = \<lparr>uri = uri_path x, label = [], path = uri_path x\<rparr>"
    using assms(6) by (simp add: spec_project_def spec_label_def last_segment_def)
  with assms(4,5) have m: "\<lparr>uri = uri_path x, label = [], path = uri_path x\<rparr> \<in> set ?ps"
    by force
  have o: "\<forall>y\<in>set ys. survives y \<longrightarrow> (\<exists>q\<in>set ?ps. path q = uri_path y)"
    by (auto simp: spec_project_def)
  from g m o show ?thesis by (intro exI [of _ ?ps]) simp
qed

theorem empty_label_project_witness:
  "\<exists>ps. getRecentProjects (Parsed (storage_of_menu [recent_menu
       [folder_entry ''alice/dev/proj'' ''/Users/alice/dev/proj'', folder_entry '''' ''/w/unnamed'']])) = Inr ps \<and>
     length ps = 2 \<and>
     \<lparr>uri = Some (JStr ''/w/unnamed''), label = [], path = Some (JStr ''/w/unnamed'')\<rparr> \<in> set ps \<and>
     (\<exists>q\<in>set ps. path q = Some (JStr ''/Users/alice/dev/proj''))"
proof -
  let ?a = "folder_entry ''alice/dev/proj'' ''/Users/alice/dev/proj''"
  let ?x = "folder_entry '''' ''/w/unnamed''"
  have a: "JNull \<notin> set [?a, ?x]" by (simp add: folder_entry_def)
  have b: "\<forall>y\<in>set [?a, ?x]. survives y \<longrightarrow> is_string (get_prop y ''label'')"
    by (simp add: folder_entry_def)
  have c: "?x \<in> set [?a, ?x]" by simp
  have d: "survives ?x" "survives ?a" by (simp_all add: survives_def folder_entry_def)
  have e: "get_prop ?x ''label'' = Some (JStr [])" by (simp add: folder_entry_def)
  have u: "uri_path ?x = Some (JStr ''/w/unnamed'')" "uri_path ?a = Some (JStr ''/Users/alice/dev/proj'')"
    by (simp_all add: uri_path_def folder_entry_def)
  from empty_label_project [OF reaches_example a b c d(1) e]
  obtain ps where
    "getRecentProjects (Parsed (storage_of_menu [recent_menu [?a, ?x]])) = Inr ps"
    "length ps = length (filter survives [?a, ?x])"
    "\<lparr>uri = uri_path ?x, label = [], path = uri_path ?x\<rparr> \<in> set ps"
    "\<forall>y\<in>set [?a, ?x]. survives y \<longrightarrow> (\<exists>q\<in>set ps. path q = uri_path y)"
    by blast
  with d u show ?thesis by (intro exI [of _ ps]) simp
qed

text \<open>
  C10. When an entry of the recent menu passes both filters and its label is not a string
  (absent, or of another type), the \<^verbatim>\<open>try\<close> block ends in a TypeError and the extraction
  returns the empty list, whatever the other entries are.
\<close>

theorem non_string_label_empties:
  assumes "reaches doc ys" and "x \<in> set ys" and "survives x"
    and "\<not> is_string (get_prop x ''label'')"
  shows "getRecentProjects_try (Parsed doc) = Inl TypeError \<and>
         getRecentProjects (Parsed doc) = Inr []"
proof -
  from assms(2,3,4) have "project_chain (Some (JArr ys)) = Inl TypeError"
    by (auto simp: project_chain_eq)
  with try_reaches [OF assms(1)] show ?thesis by (simp add: catch_TypeError)
qed

theorem non_string_label_empties_witness:
  "getRecentProjects_try (Parsed (storage_of_menu [recent_menu
      [folder_entry ''w/first'' ''/w/first'',
       JObj [(''id'', JStr ''openRecentFolder''), (''label'', JNum 42),
             (''uri'', JObj [(''path'', JStr ''/w/second'')])]]])) = Inl TypeError \<and>
   getRecentProjects (Parsed (storage_of_menu [recent_menu
      [folder_entry ''w/first'' ''/w/first'',
       JObj [(''id'', JStr ''openRecentFolder''), (''label'', JNum 42),
             (''uri'', JObj [(''path'', JStr ''/w/second'')])]]])) = Inr []"
proof -
  let ?x = "JObj [(''id'', JStr ''openRecentFolder''), (''label'', JNum 42),
             (''uri'', JObj [(''path'', JStr ''/w/second'')])]"
  have a: "?x \<in> set [folder_entry ''w/first'' ''/w/first'', ?x]" by simp
  have b: "survives ?x" by (simp add: survives_def)
  have c: "\<not> is_string (get_prop ?x ''label'')" by simp
  from non_string_label_empties [OF reaches_example a b c] show ?thesis .
qed

end
